theory Spec2Isabelle
  imports Main
begin

section \<open>The ClickHouseInstallation controller (pkg/controllers/chi/chi.go)\<close>

text \<open>
  The controller drains a rate-limited work queue of keys, reconciles the
  ClickHouseInstallation (CHI) behind each key, and routes events of dependent objects
  back to the key of their owner. Every collaborator the Go file reaches through an
  interface (listers, clientsets, the work queue, the metrics exporter) is a component of
  the state \<open>world\<close>; every pure helper of another package is a field of \<open>deps\<close>.
\<close>

subsection \<open>Errors and log lines\<close>

datatype error =
    NotFound
  | AlreadyExists
  | StoreError string
  | KeyError string
  | UnableToSync string error

text \<open>\<open>apierrors.IsNotFound\<close>.\<close>

definition IsNotFound :: "error \<Rightarrow> bool" where
  "IsNotFound e = (case e of NotFound \<Rightarrow> True | _ \<Rightarrow> False)"

subsection \<open>Objects\<close>

record ownerReference =
  refKind :: string
  refName :: string
  refController :: "bool option"

record object =
  objName :: string
  objNamespace :: string
  objSelfLink :: string
  objOwnerReferences :: "ownerReference list"

datatype kind = ConfigMap | Service | StatefulSet

text \<open>
  One element of \<open>chiObjects\<close>. The type switch of \<open>createControlledResources\<close> has the
  three cases below and no default: a value of any other type is skipped (\<open>OtherList\<close>).
\<close>

datatype objlist =
    ConfigMapList "object list"
  | ServiceList "object list"
  | StatefulSetList "object list"
  | OtherList

record ChiStatus =
  ObjectPrefixes :: "string list"

record chi =
  chiName :: string
  chiNamespace :: string
  chiSpec :: string
  chiStatus :: ChiStatus

text \<open>What an informer hands to \<open>handleObject\<close>: an \<open>interface{}\<close>.\<close>

datatype payload =
    MetaObject object
  | DeletedFinalStateUnknown string payload
  | Undecodable

text \<open>What the work queue holds: an \<open>interface{}\<close>, a string when the controller put it there.\<close>

datatype item = StringItem string | OtherItem nat | NilItem

datatype logline =
    ErrUnexpectedItem item
  | ErrReported error
  | ErrIncorrectKey string
  | ErrNoLongerExists string
  | ErrUnableToDecode
  | InfoUnableToCreate string error
  | InfoUnableToUpdateStatus string error
  | InfoSyncedCreated string "string list"
  | InfoControlsStatefulSet string string
  | InfoIncludingHostnames string
  | InfoProcessingObject string
  | InfoIgnoringOrphaned string string

subsection \<open>The work queue\<close>

text \<open>
  Modelled from the spec: the Work Queue of section 4.1 (client-go's rate-limiting
  work queue, which is not part of chi.go). \<open>queueItems\<close> are the keys ready for a
  worker, \<open>dirty\<close> the keys that need processing, \<open>processing\<close> the keys a worker holds,
  \<open>failures\<close> the per-key count of consecutive rate-limited adds that drives the
  exponential backoff (the delay of the next add is the base delay times
  \<open>2 ^ failures\<close>), and \<open>calls\<close> the calls the controller has issued, oldest first.
  The waiting time itself is not modelled: a rate-limited key is added at once.
\<close>

datatype qcall = QGet | QDone item | QForget item | QAddRateLimited item nat

record workqueue =
  queueItems :: "item list"
  dirty :: "item list"
  processing :: "item list"
  shuttingDown :: bool
  failures :: "item \<Rightarrow> nat"
  calls :: "qcall list"

definition queue_Add :: "item \<Rightarrow> workqueue \<Rightarrow> workqueue" where
  "queue_Add it q =
     (if shuttingDown q then q
      else if it \<in> set (dirty q) then q
      else if it \<in> set (processing q) then q\<lparr>dirty := it # dirty q\<rparr>
      else q\<lparr>dirty := it # dirty q, queueItems := queueItems q @ [it]\<rparr>)"

text \<open>\<open>None\<close>: the queue is empty and not shutting down, so \<open>Get\<close> blocks.\<close>

definition queue_Get :: "workqueue \<Rightarrow> ((item \<times> bool) \<times> workqueue) option" where
  "queue_Get q =
     (case queueItems q of
        [] \<Rightarrow> (if shuttingDown q then Some ((NilItem, True), q\<lparr>calls := calls q @ [QGet]\<rparr>)
               else None)
      | it # rest \<Rightarrow>
          Some ((it, False),
                q\<lparr>queueItems := rest, processing := it # processing q,
                  dirty := removeAll it (dirty q), calls := calls q @ [QGet]\<rparr>))"

definition queue_Done :: "item \<Rightarrow> workqueue \<Rightarrow> workqueue" where
  "queue_Done it q =
     (let q1 = q\<lparr>processing := removeAll it (processing q), calls := calls q @ [QDone it]\<rparr>
      in if it \<in> set (dirty q1) then q1\<lparr>queueItems := queueItems q1 @ [it]\<rparr> else q1)"

definition queue_Forget :: "item \<Rightarrow> workqueue \<Rightarrow> workqueue" where
  "queue_Forget it q =
     q\<lparr>failures := (failures q)(it := 0), calls := calls q @ [QForget it]\<rparr>"

definition queue_AddRateLimited :: "item \<Rightarrow> workqueue \<Rightarrow> workqueue" where
  "queue_AddRateLimited it q =
     queue_Add it
       (q\<lparr>failures := (failures q)(it := Suc (failures q it)),
          calls := calls q @ [QAddRateLimited it (failures q it)]\<rparr>)"

subsection \<open>The Store clients\<close>

text \<open>
  Modelled from the spec: the Store client contract of section 6 for dependent objects
  (\<open>kubeClient\<close>, client-go). \<open>Create\<close> answers the injected failure \<open>createFault\<close> when
  there is one, \<open>AlreadyExists\<close> when an object of that kind, namespace and name is
  stored, and stores the object otherwise; every call is recorded in \<open>createCalls\<close>.
\<close>

type_synonym objkey = "kind \<times> string \<times> string"

record kube =
  objects :: "objkey \<Rightarrow> object option"
  createFault :: "objkey \<Rightarrow> error option"
  createCalls :: "objkey list"

definition kube_Create :: "kind \<Rightarrow> string \<Rightarrow> object \<Rightarrow> kube \<Rightarrow> error option \<times> kube" where
  "kube_Create k namespace obj kc =
     (let key = (k, namespace, objName obj);
          kc1 = kc\<lparr>createCalls := createCalls kc @ [key]\<rparr>
      in case createFault kc key of
           Some err \<Rightarrow> (Some err, kc1)
         | None \<Rightarrow>
            (case objects kc key of
               Some old \<Rightarrow> (Some AlreadyExists, kc1)
             | None \<Rightarrow> (None, kc1\<lparr>objects := (objects kc)(key \<mapsto> obj)\<rparr>)))"

text \<open>
  Modelled from the spec: the Store client contract of section 6 for the Custom Resource
  (\<open>chopClient\<close>, the generated clientset). \<open>Update\<close> answers the injected failure
  \<open>updateFault\<close> when there is one, \<open>NotFound\<close> when no resource of that namespace and
  name is stored, and replaces the stored resource otherwise; every call is recorded.
\<close>

record chopClientset =
  chis :: "string \<times> string \<Rightarrow> chi option"
  updateFault :: "string \<times> string \<Rightarrow> error option"
  updateCalls :: "chi list"

definition chop_Update :: "string \<Rightarrow> chi \<Rightarrow> chopClientset \<Rightarrow> error option \<times> chopClientset" where
  "chop_Update namespace c cc =
     (let key = (namespace, chiName c);
          cc1 = cc\<lparr>updateCalls := updateCalls cc @ [c]\<rparr>
      in case updateFault cc key of
           Some err \<Rightarrow> (Some err, cc1)
         | None \<Rightarrow>
            (case chis cc key of
               None \<Rightarrow> (Some NotFound, cc1)
             | Some old \<Rightarrow> (None, cc1\<lparr>chis := (chis cc)(key \<mapsto> c)\<rparr>)))"

subsection \<open>The controller's state and the helpers of other packages\<close>

text \<open>
  The metrics exporter is known by the \<open>UpdateControlledState\<close> calls it has received,
  oldest first; what \<open>ControlledValuesExist\<close> answers from them is a parameter.
\<close>

type_synonym exporter = "(string \<times> string list) list"

text \<open>
  The fields of \<open>Controller\<close>. A lister answers either an object or an error (the
  lister contract: the object is nil exactly when the error is not), keyed by namespace
  and name; the listers are the watch cache and are never written by the controller.
\<close>

record world =
  queue :: workqueue
  chopLister :: "string \<times> string \<Rightarrow> error + chi"
  statefulSetLister :: "string \<times> string \<Rightarrow> error + object"
  configMapLister :: "string \<times> string \<Rightarrow> error + object"
  serviceLister :: "string \<times> string \<Rightarrow> error + object"
  kubeClient :: kube
  chopClient :: chopClientset
  metricsExporter :: exporter
  logs :: "logline list"

text \<open>
  Functions and constants of packages that are not in chi.go, taken as parameters:
  \<open>cache.SplitMetaNamespaceKey\<close>, \<open>cache.MetaNamespaceKeyFunc\<close> (on a CHI),
  \<open>chopparser.CreateObjects\<close> (the groups in the order the \<open>range\<close> visits them, and the
  prefixes), \<open>chopparser.CreateStatefulSetName\<close>, \<open>chopparser.CreatePodHostname\<close>,
  \<open>chop.ClickHouseInstallationCRDResourceKind\<close> and the exporter's
  \<open>ControlledValuesExist\<close>.
\<close>

record deps =
  SplitMetaNamespaceKey :: "string \<Rightarrow> error + string \<times> string"
  MetaNamespaceKeyFunc :: "chi \<Rightarrow> error + string"
  CreateObjects :: "chi \<Rightarrow> objlist list \<times> string list"
  CreateStatefulSetName :: "string \<Rightarrow> string"
  CreatePodHostname :: "string \<Rightarrow> string \<Rightarrow> string"
  ClickHouseInstallationCRDResourceKind :: string
  ControlledValuesExist :: "exporter \<Rightarrow> string \<Rightarrow> string list \<Rightarrow> bool"

text \<open>\<open>glog.V(2).Infof\<close> and \<open>utilruntime.HandleError\<close>: a line appended to the log.\<close>

definition emit :: "logline \<Rightarrow> world \<Rightarrow> world" where
  "emit l s = s\<lparr>logs := logs s @ [l]\<rparr>"

definition UpdateControlledState :: "string \<Rightarrow> string list \<Rightarrow> world \<Rightarrow> world" where
  "UpdateControlledState name hostnames s =
     s\<lparr>metricsExporter := metricsExporter s @ [(name, hostnames)]\<rparr>"

subsection \<open>Creating the dependent objects\<close>

definition createConfigMap :: "chi \<Rightarrow> object \<Rightarrow> world \<Rightarrow> error option \<times> world" where
  "createConfigMap c newConfigMap s =
     (case configMapLister s (chiNamespace c, objName newConfigMap) of
        Inr res \<Rightarrow> (None, s)
      | Inl err \<Rightarrow>
          (if IsNotFound err then
             (case kube_Create ConfigMap (chiNamespace c) newConfigMap (kubeClient s) of
                (err1, kc) \<Rightarrow> (err1, s\<lparr>kubeClient := kc\<rparr>))
           else (Some err, s)))"

definition createService :: "chi \<Rightarrow> object \<Rightarrow> world \<Rightarrow> error option \<times> world" where
  "createService c newService s =
     (case serviceLister s (chiNamespace c, objName newService) of
        Inr res \<Rightarrow> (None, s)
      | Inl err \<Rightarrow>
          (if IsNotFound err then
             (case kube_Create Service (chiNamespace c) newService (kubeClient s) of
                (err1, kc) \<Rightarrow> (err1, s\<lparr>kubeClient := kc\<rparr>))
           else (Some err, s)))"

definition createStatefulSet :: "chi \<Rightarrow> object \<Rightarrow> world \<Rightarrow> error option \<times> world" where
  "createStatefulSet c newStatefulSet s =
     (case statefulSetLister s (chiNamespace c, objName newStatefulSet) of
        Inr res \<Rightarrow> (None, s)
      | Inl err \<Rightarrow>
          (if IsNotFound err then
             (case kube_Create StatefulSet (chiNamespace c) newStatefulSet (kubeClient s) of
                (err1, kc) \<Rightarrow> (err1, s\<lparr>kubeClient := kc\<rparr>))
           else (Some err, s)))"

text \<open>
  The inner loops of \<open>createControlledResources\<close>:
  \<open>for _, obj := range v { if err := create(chiCopy, obj); err != nil { return nil, err } }\<close>.
\<close>

fun createEach ::
  "(chi \<Rightarrow> object \<Rightarrow> world \<Rightarrow> error option \<times> world) \<Rightarrow> chi \<Rightarrow> object list \<Rightarrow> world
     \<Rightarrow> error option \<times> world" where
  "createEach create c [] s = (None, s)"
| "createEach create c (obj # objs) s =
     (case create c obj s of
        (Some err, s1) \<Rightarrow> (Some err, s1)
      | (None, s1) \<Rightarrow> createEach create c objs s1)"

text \<open>The outer loop with its type switch.\<close>

fun createLists :: "chi \<Rightarrow> objlist list \<Rightarrow> world \<Rightarrow> error option \<times> world" where
  "createLists c [] s = (None, s)"
| "createLists c (objList # rest) s =
     (case (case objList of
              ConfigMapList v \<Rightarrow> createEach createConfigMap c v s
            | ServiceList v \<Rightarrow> createEach createService c v s
            | StatefulSetList v \<Rightarrow> createEach createStatefulSet c v s
            | OtherList \<Rightarrow> (None, s)) of
        (Some err, s1) \<Rightarrow> (Some err, s1)
      | (None, s1) \<Rightarrow> createLists c rest s1)"

definition createControlledResources ::
  "deps \<Rightarrow> chi \<Rightarrow> world \<Rightarrow> (error + string list) \<times> world" where
  "createControlledResources d c s =
     (let chiCopy = c;
          (chiObjects, prefixes) = CreateObjects d chiCopy
      in case createLists chiCopy chiObjects s of
           (Some err, s1) \<Rightarrow> (Inl err, s1)
         | (None, s1) \<Rightarrow> (Inr prefixes, s1))"

definition updateChiStatus :: "chi \<Rightarrow> string list \<Rightarrow> world \<Rightarrow> error option \<times> world" where
  "updateChiStatus c objectPrefixes s =
     (let chiCopy = c\<lparr>chiStatus := \<lparr>ObjectPrefixes = objectPrefixes\<rparr>\<rparr>
      in case chop_Update (chiNamespace c) chiCopy (chopClient s) of
           (err, cc) \<Rightarrow> (err, s\<lparr>chopClient := cc\<rparr>))"

subsection \<open>The reconciliation of one key\<close>

text \<open>
  The loop of the verification branch of \<open>syncItem\<close>, from index \<open>i\<close> on:
  \<open>chHostnames[i]\<close> is written only when the StatefulSet of the prefix is found. The
  slice is made with one entry per prefix, so the index is always within it.
\<close>

fun checkPrefixes ::
  "deps \<Rightarrow> chi \<Rightarrow> nat \<Rightarrow> string list \<Rightarrow> string list \<times> world \<Rightarrow> string list \<times> world" where
  "checkPrefixes d c i [] (chHostnames, s) = (chHostnames, s)"
| "checkPrefixes d c i (prefix # rest) (chHostnames, s) =
     (let ssName = CreateStatefulSetName d prefix
      in case statefulSetLister s (chiNamespace c, ssName) of
           Inr found \<Rightarrow>
             checkPrefixes d c (Suc i) rest
               (chHostnames[i := CreatePodHostname d (chiNamespace c) prefix],
                emit (InfoControlsStatefulSet (chiName c) ssName) s)
         | Inl err \<Rightarrow> checkPrefixes d c (Suc i) rest (chHostnames, s))"

definition syncItem :: "deps \<Rightarrow> string \<Rightarrow> world \<Rightarrow> error option \<times> world" where
  "syncItem d key s =
     (case SplitMetaNamespaceKey d key of
        Inl err \<Rightarrow> (None, emit (ErrIncorrectKey key) s)
      | Inr (namespace, name) \<Rightarrow>
         (case chopLister s (namespace, name) of
            Inl err \<Rightarrow>
              (if IsNotFound err then (None, emit (ErrNoLongerExists key) s)
               else (Some err, s))
          | Inr c \<Rightarrow>
              (if ObjectPrefixes (chiStatus c) = [] then
                 (case createControlledResources d c s of
                    (Inl err, s1) \<Rightarrow> (Some err, emit (InfoUnableToCreate (chiName c) err) s1)
                  | (Inr prefixes, s1) \<Rightarrow>
                     (case updateChiStatus c prefixes s1 of
                        (Some err, s2) \<Rightarrow>
                          (Some err, emit (InfoUnableToUpdateStatus (chiName c) err) s2)
                      | (None, s2) \<Rightarrow>
                          (None, emit (InfoSyncedCreated (chiName c) prefixes) s2)))
               else
                 (let prefixesNum = length (ObjectPrefixes (chiStatus c));
                      (chHostnames, s1) =
                         checkPrefixes d c 0 (ObjectPrefixes (chiStatus c))
                           (replicate prefixesNum [], s)
                  in if \<not> ControlledValuesExist d (metricsExporter s1) (chiName c) chHostnames
                     then (None,
                           UpdateControlledState (chiName c) chHostnames
                             (emit (InfoIncludingHostnames (chiName c)) s1))
                     else (None, s1)))))"

subsection \<open>The worker\<close>

text \<open>
  The closure of \<open>processNextWorkItem\<close> up to its deferred \<open>Done\<close>: the error it returns
  and the state it leaves.
\<close>

definition processItem :: "deps \<Rightarrow> item \<Rightarrow> world \<Rightarrow> error option \<times> world" where
  "processItem d it s =
     (case it of
        StringItem stringItem \<Rightarrow>
          (case syncItem d stringItem s of
             (Some err, s1) \<Rightarrow> (Some (UnableToSync stringItem err), s1)
           | (None, s1) \<Rightarrow> (None, s1\<lparr>queue := queue_Forget it (queue s1)\<rparr>))
      | _ \<Rightarrow> (None, emit (ErrUnexpectedItem it) (s\<lparr>queue := queue_Forget it (queue s)\<rparr>)))"

text \<open>
  \<open>None\<close>: the worker waits in \<open>Get\<close>. Otherwise the flag the worker loop tests (go on or
  stop) and the new state.
\<close>

definition processNextWorkItem :: "deps \<Rightarrow> world \<Rightarrow> (bool \<times> world) option" where
  "processNextWorkItem d s =
     (case queue_Get (queue s) of
        None \<Rightarrow> None
      | Some ((it, shutdown), q) \<Rightarrow>
          (if shutdown then Some (False, s\<lparr>queue := q\<rparr>)
           else
             (case processItem d it (s\<lparr>queue := q\<rparr>) of
                (err, s1) \<Rightarrow>
                  (let s2 = s1\<lparr>queue := queue_Done it (queue s1)\<rparr>
                   in case err of
                        Some e \<Rightarrow> Some (True, emit (ErrReported e) s2)
                      | None \<Rightarrow> Some (True, s2)))))"

subsection \<open>The event router\<close>

text \<open>
  Modelled from the spec: the Owner Reference of section 6, whose controller flag marks
  the authoritative owner (\<open>meta.GetControllerOf\<close> of apimachinery): the first reference
  whose flag is set and true.
\<close>

definition GetControllerOf :: "object \<Rightarrow> ownerReference option" where
  "GetControllerOf obj = find (\<lambda>r. refController r = Some True) (objOwnerReferences obj)"

definition enqueueObject :: "deps \<Rightarrow> chi \<Rightarrow> world \<Rightarrow> world" where
  "enqueueObject d obj s =
     (case MetaNamespaceKeyFunc d obj of
        Inl err \<Rightarrow> emit (ErrReported err) s
      | Inr key \<Rightarrow> s\<lparr>queue := queue_AddRateLimited (StringItem key) (queue s)\<rparr>)"

text \<open>\<open>handleObject\<close> once \<open>object\<close> is known to be a \<open>meta.Object\<close>.\<close>

definition handleMetaObject :: "deps \<Rightarrow> object \<Rightarrow> world \<Rightarrow> world" where
  "handleMetaObject d obj s =
     (case GetControllerOf obj of
        None \<Rightarrow> s
      | Some ownerRef \<Rightarrow>
          (if refKind ownerRef \<noteq> ClickHouseInstallationCRDResourceKind d then s
           else
             (let s1 = emit (InfoProcessingObject (objName obj)) s
              in case chopLister s1 (objNamespace obj, refName ownerRef) of
                   Inl err \<Rightarrow>
                     emit (InfoIgnoringOrphaned (objSelfLink obj) (refName ownerRef)) s1
                 | Inr c \<Rightarrow> enqueueObject d c s1)))"

definition handleObject :: "deps \<Rightarrow> payload \<Rightarrow> world \<Rightarrow> world" where
  "handleObject d obj s =
     (case obj of
        MetaObject object \<Rightarrow> handleMetaObject d object s
      | DeletedFinalStateUnknown tsKey tsObj \<Rightarrow>
          (case tsObj of
             MetaObject object \<Rightarrow> handleMetaObject d object s
           | _ \<Rightarrow> emit ErrUnableToDecode s)
      | Undecodable \<Rightarrow> emit ErrUnableToDecode s)"

subsection \<open>Notions used to state the properties\<close>

text \<open>
  The dependent objects of the generated lists in the order in which
  \<open>createControlledResources\<close> visits them, each with the kind its list gives it.
\<close>

fun dependents :: "objlist list \<Rightarrow> (kind \<times> object) list" where
  "dependents [] = []"
| "dependents (ConfigMapList v # rest) = map (Pair ConfigMap) v @ dependents rest"
| "dependents (ServiceList v # rest) = map (Pair Service) v @ dependents rest"
| "dependents (StatefulSetList v # rest) = map (Pair StatefulSet) v @ dependents rest"
| "dependents (OtherList # rest) = dependents rest"

text \<open>The lister and the create helper of a kind.\<close>

definition lister :: "kind \<Rightarrow> world \<Rightarrow> string \<times> string \<Rightarrow> error + object" where
  "lister k s =
     (case k of ConfigMap \<Rightarrow> configMapLister s | Service \<Rightarrow> serviceLister s
      | StatefulSet \<Rightarrow> statefulSetLister s)"

definition createDependent :: "chi \<Rightarrow> kind \<times> object \<Rightarrow> world \<Rightarrow> error option \<times> world" where
  "createDependent c ko s =
     (case fst ko of ConfigMap \<Rightarrow> createConfigMap c (snd ko) s
      | Service \<Rightarrow> createService c (snd ko) s
      | StatefulSet \<Rightarrow> createStatefulSet c (snd ko) s)"

text \<open>The key under which the Store holds a dependent object of the resource \<open>c\<close>.\<close>

definition keyOf :: "chi \<Rightarrow> kind \<times> object \<Rightarrow> objkey" where
  "keyOf c ko = (fst ko, chiNamespace c, objName (snd ko))"

definition isFound :: "error + 'a \<Rightarrow> bool" where
  "isFound r = (case r of Inr x \<Rightarrow> True | Inl e \<Rightarrow> False)"

definition inCache :: "world \<Rightarrow> chi \<Rightarrow> kind \<times> object \<Rightarrow> bool" where
  "inCache s c ko = isFound (lister (fst ko) s (chiNamespace c, objName (snd ko)))"

definition inStore :: "world \<Rightarrow> chi \<Rightarrow> kind \<times> object \<Rightarrow> bool" where
  "inStore s c ko = (objects (kubeClient s) (keyOf c ko) \<noteq> None)"

text \<open>The watch cache shows none of the objects \<open>kos\<close> unless the Store holds it.\<close>

definition cacheSound :: "world \<Rightarrow> chi \<Rightarrow> (kind \<times> object) list \<Rightarrow> bool" where
  "cacheSound s c kos = list_all (\<lambda>ko. inCache s c ko \<longrightarrow> inStore s c ko) kos"

text \<open>The watch cache shows each of the objects \<open>kos\<close> that the Store holds.\<close>

definition cacheReflects :: "world \<Rightarrow> chi \<Rightarrow> (kind \<times> object) list \<Rightarrow> bool" where
  "cacheReflects s c kos = list_all (\<lambda>ko. inStore s c ko \<longrightarrow> inCache s c ko) kos"

text \<open>The creation phase over the flat list of dependent objects.\<close>

fun createAll :: "chi \<Rightarrow> (kind \<times> object) list \<Rightarrow> world \<Rightarrow> error option \<times> world" where
  "createAll c [] s = (None, s)"
| "createAll c (ko # kos) s =
     (case createDependent c ko s of
        (Some err, s1) \<Rightarrow> (Some err, s1)
      | (None, s1) \<Rightarrow> createAll c kos s1)"

text \<open>
  The identity list of the verification phase, position by position: the pod hostname
  of a prefix whose StatefulSet the cache shows, the empty string otherwise.
\<close>

definition identities :: "deps \<Rightarrow> chi \<Rightarrow> world \<Rightarrow> string list" where
  "identities d c s =
     map (\<lambda>prefix.
            case statefulSetLister s (chiNamespace c, CreateStatefulSetName d prefix) of
              Inr found \<Rightarrow> CreatePodHostname d (chiNamespace c) prefix
            | Inl err \<Rightarrow> [])
         (ObjectPrefixes (chiStatus c))"

text \<open>The lines the verification loop logs: one for each prefix whose StatefulSet is found.\<close>

definition controlledLines :: "deps \<Rightarrow> chi \<Rightarrow> world \<Rightarrow> logline list" where
  "controlledLines d c s =
     map (\<lambda>prefix. InfoControlsStatefulSet (chiName c) (CreateStatefulSetName d prefix))
       (filter (\<lambda>prefix.
                  isFound (statefulSetLister s (chiNamespace c, CreateStatefulSetName d prefix)))
          (ObjectPrefixes (chiStatus c)))"

subsection \<open>A concrete installation\<close>

text \<open>
  The scenario of the spec's section 8: the resource \<open>demo\<close> in namespace \<open>ns1\<close>, whose
  generator returns the prefixes \<open>demo-0\<close> and \<open>demo-1\<close> and one object per prefix and kind.
\<close>

definition demoOwner :: ownerReference where
  "demoOwner =
     \<lparr>refKind = ''ClickHouseInstallation'', refName = ''demo'', refController = Some True\<rparr>"

definition demoObject :: "string \<Rightarrow> object" where
  "demoObject n =
     \<lparr>objName = n, objNamespace = ''ns1'', objSelfLink = ''/'' @ n,
      objOwnerReferences = [demoOwner]\<rparr>"

definition demoChi :: chi where
  "demoChi =
     \<lparr>chiName = ''demo'', chiNamespace = ''ns1'', chiSpec = ''spec'',
      chiStatus = \<lparr>ObjectPrefixes = []\<rparr>\<rparr>"

definition demoSynced :: chi where
  "demoSynced = demoChi\<lparr>chiStatus := \<lparr>ObjectPrefixes = [''demo-0'', ''demo-1'']\<rparr>\<rparr>"

definition demoObjects :: "objlist list" where
  "demoObjects =
     [ConfigMapList [demoObject ''cm-demo-0'', demoObject ''cm-demo-1''],
      ServiceList [demoObject ''svc-demo-0'', demoObject ''svc-demo-1''],
      StatefulSetList [demoObject ''ss-demo-0'', demoObject ''ss-demo-1'']]"

definition demoDeps :: deps where
  "demoDeps =
     \<lparr>SplitMetaNamespaceKey =
        (\<lambda>key. if key = ''ns1/demo'' then Inr (''ns1'', ''demo'') else Inl (KeyError key)),
      MetaNamespaceKeyFunc = (\<lambda>c. Inr (chiNamespace c @ ''/'' @ chiName c)),
      CreateObjects = (\<lambda>c. (demoObjects, [''demo-0'', ''demo-1''])),
      CreateStatefulSetName = (\<lambda>prefix. ''ss-'' @ prefix),
      CreatePodHostname = (\<lambda>namespace prefix. prefix @ ''.'' @ namespace),
      ClickHouseInstallationCRDResourceKind = ''ClickHouseInstallation'',
      ControlledValuesExist = (\<lambda>x name hostnames. (name, hostnames) \<in> set x)\<rparr>"

definition demoQueue :: workqueue where
  "demoQueue =
     \<lparr>queueItems = [StringItem ''ns1/demo''], dirty = [StringItem ''ns1/demo''],
      processing = [], shuttingDown = False, failures = (\<lambda>it. 0), calls = []\<rparr>"

definition notCached :: "string \<times> string \<Rightarrow> error + object" where
  "notCached key = Inl NotFound"

text \<open>Nothing is stored yet but the resource itself, and the caches show as much.\<close>

definition demoWorld :: world where
  "demoWorld =
     \<lparr>queue = demoQueue,
      chopLister = (\<lambda>key. if key = (''ns1'', ''demo'') then Inr demoChi else Inl NotFound),
      statefulSetLister = notCached,
      configMapLister = notCached,
      serviceLister = notCached,
      kubeClient = \<lparr>objects = (\<lambda>key. None), createFault = (\<lambda>key. None), createCalls = []\<rparr>,
      chopClient =
        \<lparr>chis = (\<lambda>key. if key = (''ns1'', ''demo'') then Some demoChi else None),
         updateFault = (\<lambda>key. None), updateCalls = []\<rparr>,
      metricsExporter = [],
      logs = []\<rparr>"

text \<open>The Store fails the creation of the first Service with a transient error.\<close>

definition faultyWorld :: world where
  "faultyWorld =
     demoWorld\<lparr>kubeClient :=
       (kubeClient demoWorld)\<lparr>createFault :=
          (\<lambda>key. if key = (Service, ''ns1'', ''svc-demo-0'')
                  then Some (StoreError ''timeout'') else None)\<rparr>\<rparr>"

text \<open>
  Another creator has stored the first ConfigMap, and the watch cache does not show it
  yet.
\<close>

definition racedWorld :: world where
  "racedWorld =
     demoWorld\<lparr>kubeClient :=
       (kubeClient demoWorld)\<lparr>objects :=
          (\<lambda>key. if key = (ConfigMap, ''ns1'', ''cm-demo-0'')
                  then Some (demoObject ''cm-demo-0'') else None)\<rparr>\<rparr>"

text \<open>A cache that shows exactly what the Store of \<open>s\<close> holds.\<close>

definition refreshed :: "world \<Rightarrow> world" where
  "refreshed s =
     s\<lparr>configMapLister :=
         (\<lambda>(namespace, name). case objects (kubeClient s) (ConfigMap, namespace, name) of
             Some obj \<Rightarrow> Inr obj | None \<Rightarrow> Inl NotFound),
       serviceLister :=
         (\<lambda>(namespace, name). case objects (kubeClient s) (Service, namespace, name) of
             Some obj \<Rightarrow> Inr obj | None \<Rightarrow> Inl NotFound),
       statefulSetLister :=
         (\<lambda>(namespace, name). case objects (kubeClient s) (StatefulSet, namespace, name) of
             Some obj \<Rightarrow> Inr obj | None \<Rightarrow> Inl NotFound)\<rparr>"

text \<open>
  The resource has its status; the cache shows the StatefulSet of \<open>demo-1\<close> and not the
  one of \<open>demo-0\<close>, and the exporter already holds the identity list of that state.
\<close>

definition driftedWorld :: world where
  "driftedWorld =
     demoWorld\<lparr>
       chopLister := (\<lambda>key. if key = (''ns1'', ''demo'') then Inr demoSynced else Inl NotFound),
       statefulSetLister :=
         (\<lambda>key. if key = (''ns1'', ''ss-demo-1'') then Inr (demoObject ''ss-demo-1'')
                 else Inl NotFound),
       metricsExporter := [(''demo'', [[], ''demo-1.ns1''])]\<rparr>"

text \<open>The resource is gone from the cache while its key is still queued.\<close>

definition goneWorld :: world where
  "goneWorld = demoWorld\<lparr>chopLister := (\<lambda>key. Inl NotFound)\<rparr>"

text \<open>
  The resource has its status, the cache shows none of its StatefulSets, and the exporter
  already holds the identity list of that state.
\<close>

definition lostWorld :: world where
  "lostWorld =
     driftedWorld\<lparr>statefulSetLister := notCached, metricsExporter := [(''demo'', [[], []])]\<rparr>"

text \<open>The lookup of the resource fails with an error other than \<open>NotFound\<close>.\<close>

definition brokenCacheWorld :: world where
  "brokenCacheWorld = demoWorld\<lparr>chopLister := (\<lambda>key. Inl (StoreError ''cache''))\<rparr>"

text \<open>Nothing is queued.\<close>

definition idleWorld :: world where
  "idleWorld = demoWorld\<lparr>queue := demoQueue\<lparr>queueItems := [], dirty := []\<rparr>\<rparr>"

text \<open>
  A StatefulSet whose only reference to the resource is not a controller reference, and
  one that a Deployment controls.
\<close>

definition unownedObject :: object where
  "unownedObject =
     (demoObject ''ss-free'')\<lparr>objOwnerReferences := [demoOwner\<lparr>refController := Some False\<rparr>]\<rparr>"

definition foreignObject :: object where
  "foreignObject =
     (demoObject ''ss-other'')\<lparr>objOwnerReferences := [demoOwner\<lparr>refKind := ''Deployment''\<rparr>]\<rparr>"

text \<open>As \<open>driftedWorld\<close>, with an exporter that holds nothing yet.\<close>

definition staleWorld :: world where
  "staleWorld = driftedWorld\<lparr>metricsExporter := []\<rparr>"

text \<open>
  The watch cache still shows the first ConfigMap, which the Store no longer holds.
\<close>

definition staleCacheWorld :: world where
  "staleCacheWorld =
     demoWorld\<lparr>configMapLister :=
       (\<lambda>key. if key = (''ns1'', ''cm-demo-0'') then Inr (demoObject ''cm-demo-0'')
               else Inl NotFound)\<rparr>"

text \<open>The Store holds the first ConfigMap and the watch cache shows it.\<close>

definition warmWorld :: world where
  "warmWorld =
     racedWorld\<lparr>configMapLister :=
       (\<lambda>key. if key = (''ns1'', ''cm-demo-0'') then Inr (demoObject ''cm-demo-0'')
               else Inl NotFound)\<rparr>"

text \<open>Nothing is queued and the watch cache does not return the resource.\<close>

definition orphanWorld :: world where
  "orphanWorld = idleWorld\<lparr>chopLister := (\<lambda>key. Inl NotFound)\<rparr>"

subsection \<open>Unfolding rules and facts about the creation phase\<close>

lemmas demo_defs = demoOwner_def demoObject_def demoChi_def demoSynced_def demoObjects_def demoDeps_def
  demoQueue_def notCached_def demoWorld_def faultyWorld_def racedWorld_def driftedWorld_def goneWorld_def
  lostWorld_def brokenCacheWorld_def idleWorld_def unownedObject_def foreignObject_def
  staleWorld_def staleCacheWorld_def warmWorld_def orphanWorld_def
lemmas code_defs = IsNotFound_def queue_Add_def queue_Get_def queue_Done_def queue_Forget_def
  queue_AddRateLimited_def kube_Create_def chop_Update_def emit_def UpdateControlledState_def
  createConfigMap_def createService_def createStatefulSet_def createControlledResources_def
  updateChiStatus_def syncItem_def processItem_def processNextWorkItem_def GetControllerOf_def
  enqueueObject_def handleMetaObject_def handleObject_def

lemmas aux_defs = dependents.simps lister_def createDependent_def keyOf_def isFound_def inCache_def
  inStore_def cacheSound_def cacheReflects_def refreshed_def identities_def controlledLines_def

lemma createDependent_eq:
  "createDependent c (k, obj) s =
     (case lister k s (chiNamespace c, objName obj) of
        Inr res \<Rightarrow> (None, s)
      | Inl err \<Rightarrow>
          (if IsNotFound err then
             (case kube_Create k (chiNamespace c) obj (kubeClient s) of
                (err1, kc) \<Rightarrow> (err1, s\<lparr>kubeClient := kc\<rparr>))
           else (Some err, s)))"
  by (cases k) (auto simp: createDependent_def lister_def createConfigMap_def
      createService_def createStatefulSet_def split: sum.splits)

lemma createAll_append:
  "createAll c (xs @ ys) s =
     (case createAll c xs s of (Some err, s1) \<Rightarrow> (Some err, s1) | (None, s1) \<Rightarrow> createAll c ys s1)"
  by (induction xs arbitrary: s) (auto split: prod.splits option.splits)

lemma createEach_ConfigMap:
  "createEach createConfigMap c v s = createAll c (map (Pair ConfigMap) v) s"
  by (induction v arbitrary: s) (auto simp: createDependent_def split: prod.splits option.splits)

lemma createEach_Service:
  "createEach createService c v s = createAll c (map (Pair Service) v) s"
  by (induction v arbitrary: s) (auto simp: createDependent_def split: prod.splits option.splits)

lemma createEach_StatefulSet:
  "createEach createStatefulSet c v s = createAll c (map (Pair StatefulSet) v) s"
  by (induction v arbitrary: s) (auto simp: createDependent_def split: prod.splits option.splits)

lemma createLists_flat: "createLists c gs s = createAll c (dependents gs) s"
proof (induction gs arbitrary: s)
  case Nil
  show ?case by simp
next
  case (Cons g gs)
  show ?case
    by (cases g)
       (simp_all add: Cons.IH createAll_append createEach_ConfigMap createEach_Service
          createEach_StatefulSet split: prod.splits option.splits)
qed

lemma createControlledResources_flat:
  "createControlledResources d c s =
     (case createAll c (dependents (fst (CreateObjects d c))) s of
        (Some err, s1) \<Rightarrow> (Inl err, s1)
      | (None, s1) \<Rightarrow> (Inr (snd (CreateObjects d c)), s1))"
  by (auto simp: createControlledResources_def createLists_flat split: prod.splits option.splits)


lemma createDependent_others:
  "snd (createDependent c ko s) = s\<lparr>kubeClient := kubeClient (snd (createDependent c ko s))\<rparr>"
  by (cases ko)
     (auto simp: createDependent_eq kube_Create_def Let_def split: sum.splits option.splits)

lemma createDependent_calls:
  "createCalls (kubeClient (snd (createDependent c ko s))) =
     createCalls (kubeClient s) @
       (if inCache s c ko \<or> lister (fst ko) s (chiNamespace c, objName (snd ko)) \<noteq> Inl NotFound
        then [] else [keyOf c ko])"
  by (cases ko)
     (auto simp: createDependent_eq kube_Create_def Let_def keyOf_def inCache_def isFound_def
        IsNotFound_def split: sum.splits option.splits error.splits)

lemma createDependent_objects:
  assumes "objects (kubeClient (snd (createDependent c ko s))) key \<noteq> objects (kubeClient s) key"
  shows "key = keyOf c ko \<and> objects (kubeClient s) key = None
         \<and> objects (kubeClient (snd (createDependent c ko s))) key = Some (snd ko)
         \<and> \<not> inCache s c ko \<and> fst (createDependent c ko s) = None"
  using assms
  by (cases ko)
     (auto simp: createDependent_eq kube_Create_def Let_def keyOf_def inCache_def isFound_def
        split: sum.splits option.splits if_splits)

lemma createDependent_success:
  assumes "fst (createDependent c ko s) = None"
  shows "inCache s c ko \<or> objects (kubeClient (snd (createDependent c ko s))) (keyOf c ko) = Some (snd ko)"
  using assms
  by (cases ko)
     (auto simp: createDependent_eq kube_Create_def Let_def keyOf_def inCache_def isFound_def
        split: sum.splits option.splits if_splits)

lemma createDependent_cached:
  "inCache s c ko \<Longrightarrow> createDependent c ko s = (None, s)"
  by (cases ko) (auto simp: createDependent_eq inCache_def isFound_def split: sum.splits)

lemma createAll_others:
  "snd (createAll c kos s) = s\<lparr>kubeClient := kubeClient (snd (createAll c kos s))\<rparr>"
proof (induction kos arbitrary: s)
  case Nil
  show ?case by simp
next
  case (Cons ko kos)
  obtain r s1 where step: "createDependent c ko s = (r, s1)" by (cases "createDependent c ko s")
  have s1: "s1 = s\<lparr>kubeClient := kubeClient s1\<rparr>"
    using createDependent_others [of c ko s] step by simp
  show ?case
  proof (cases r)
    case None
    have "snd (createAll c kos s1) = s1\<lparr>kubeClient := kubeClient (snd (createAll c kos s1))\<rparr>"
      by (rule Cons.IH)
    also have "\<dots> = s\<lparr>kubeClient := kubeClient (snd (createAll c kos s1))\<rparr>"
      by (subst s1) simp
    finally show ?thesis using step None by simp
  next
    case (Some e)
    then show ?thesis using step s1 by simp
  qed
qed

lemma createAll_cached: "list_all (inCache s c) kos \<Longrightarrow> createAll c kos s = (None, s)"
  by (induction kos) (simp_all add: createDependent_cached)

lemma inCache_kube: "inCache (s\<lparr>kubeClient := kc\<rparr>) c ko = inCache s c ko"
  by (cases "fst ko") (simp_all add: inCache_def lister_def)

lemma createAll_keeps:
  "objects (kubeClient s) key = Some x \<Longrightarrow> objects (kubeClient (snd (createAll c kos s))) key = Some x"
proof (induction kos arbitrary: s)
  case Nil
  then show ?case by simp
next
  case (Cons ko kos)
  obtain r s1 where step: "createDependent c ko s = (r, s1)" by (cases "createDependent c ko s")
  have "objects (kubeClient s1) key = Some x"
    using createDependent_objects [of c ko s key] step Cons.prems by auto
  then show ?case using step Cons.IH [of s1] by (cases r) simp_all
qed

lemma createAll_stored:
  assumes "fst (createAll c kos s) = None" and "ko \<in> set kos"
  shows "inCache s c ko \<or> inStore (snd (createAll c kos s)) c ko"
  using assms
proof (induction kos arbitrary: s)
  case Nil
  then show ?case by simp
next
  case (Cons x kos)
  obtain r s1 where step: "createDependent c x s = (r, s1)" by (cases "createDependent c x s")
  have r: "r = None" using Cons.prems(1) step by (cases r) simp_all
  have s1: "s1 = s\<lparr>kubeClient := kubeClient s1\<rparr>"
    using createDependent_others [of c x s] step by simp
  have rest: "fst (createAll c kos s1) = None" using Cons.prems(1) step r by simp
  show ?case
  proof (cases "ko = x")
    case True
    have "inCache s c x \<or> objects (kubeClient s1) (keyOf c x) = Some (snd x)"
      using createDependent_success [of c x s] step r by simp
    then show ?thesis
    proof
      assume "inCache s c x" then show ?thesis using True by simp
    next
      assume "objects (kubeClient s1) (keyOf c x) = Some (snd x)"
      then have "objects (kubeClient (snd (createAll c kos s1))) (keyOf c x) = Some (snd x)"
        by (rule createAll_keeps)
      then show ?thesis using True step r by (simp add: inStore_def)
    qed
  next
    case False
    then have "ko \<in> set kos" using Cons.prems(2) by simp
    then have "inCache s1 c ko \<or> inStore (snd (createAll c kos s1)) c ko"
      using Cons.IH rest by blast
    moreover have "inCache s1 c ko = inCache s c ko" by (subst s1) (rule inCache_kube)
    ultimately show ?thesis using step r by simp
  qed
qed

lemma createAll_fails:
  assumes "createAll c kos s = (Some err, s1)"
  shows "\<exists>pre x rest s0. kos = pre @ x # rest \<and> createAll c pre s = (None, s0)
           \<and> createDependent c x s0 = (Some err, s1)"
  using assms
proof (induction kos arbitrary: s)
  case Nil
  then show ?case by simp
next
  case (Cons ko kos)
  obtain r s' where step: "createDependent c ko s = (r, s')" by (cases "createDependent c ko s")
  show ?case
  proof (cases r)
    case (Some e)
    then have "e = err" "s' = s1" using Cons.prems step by simp_all
    then have "ko # kos = [] @ ko # kos \<and> createAll c [] s = (None, s)
        \<and> createDependent c ko s = (Some err, s1)" using step Some by simp
    then show ?thesis by blast
  next
    case None
    then have "createAll c kos s' = (Some err, s1)" using Cons.prems step by simp
    then obtain dn x rest s0 where d: "kos = dn @ x # rest" "createAll c dn s' = (None, s0)"
        "createDependent c x s0 = (Some err, s1)" using Cons.IH by blast
    have "ko # kos = (ko # dn) @ x # rest \<and> createAll c (ko # dn) s = (None, s0)
        \<and> createDependent c x s0 = (Some err, s1)" using d step None by simp
    then show ?thesis by blast
  qed
qed

lemma createAll_calls:
  "\<exists>cs. createCalls (kubeClient (snd (createAll c kos s))) = createCalls (kubeClient s) @ cs
        \<and> set cs \<subseteq> keyOf c ` set kos"
proof (induction kos arbitrary: s)
  case Nil
  show ?case by simp
next
  case (Cons ko kos)
  obtain r s1 where step: "createDependent c ko s = (r, s1)" by (cases "createDependent c ko s")
  obtain c1 where c1: "createCalls (kubeClient s1) = createCalls (kubeClient s) @ c1"
      "set c1 \<subseteq> {keyOf c ko}"
    using createDependent_calls [of c ko s] step by (cases "inCache s c ko \<or> lister (fst ko) s (chiNamespace c, objName (snd ko)) \<noteq> Inl NotFound") auto
  show ?case
  proof (cases r)
    case (Some e)
    then show ?thesis using step c1 by auto
  next
    case None
    obtain c2 where c2: "createCalls (kubeClient (snd (createAll c kos s1))) = createCalls (kubeClient s1) @ c2"
        "set c2 \<subseteq> keyOf c ` set kos" using Cons.IH [of s1] by blast
    have "createCalls (kubeClient (snd (createAll c (ko # kos) s))) = createCalls (kubeClient s) @ (c1 @ c2)"
      using step None c1 c2 by simp
    moreover have "set (c1 @ c2) \<subseteq> keyOf c ` set (ko # kos)" using c1 c2 by auto
    ultimately show ?thesis by blast
  qed
qed

lemma createControlledResources_others:
  "snd (createControlledResources d c s) =
     s\<lparr>kubeClient := kubeClient (snd (createControlledResources d c s))\<rparr>"
proof -
  let ?kos = "dependents (fst (CreateObjects d c))"
  have "snd (createControlledResources d c s) = snd (createAll c ?kos s)"
    by (simp add: createControlledResources_flat split: prod.splits option.splits)
  then show ?thesis using createAll_others [of c ?kos s] by simp
qed

lemma createControlledResources_result:
  "fst (createControlledResources d c s) = Inr prefixes \<longleftrightarrow>
     fst (createAll c (dependents (fst (CreateObjects d c))) s) = None
     \<and> prefixes = snd (CreateObjects d c)"
  by (auto simp: createControlledResources_flat split: prod.splits option.splits)

lemma createControlledResources_state:
  "snd (createControlledResources d c s) = snd (createAll c (dependents (fst (CreateObjects d c))) s)"
  by (simp add: createControlledResources_flat split: prod.splits option.splits)

subsection \<open>Facts about the reconciliation of one key\<close>

lemma checkPrefixes_eq:
  assumes "i + length ps \<le> length hs"
      and "\<forall>j. i \<le> j \<longrightarrow> j < length hs \<longrightarrow> hs ! j = []"
  shows "checkPrefixes d c i ps (hs, s) =
     (take i hs
        @ map (\<lambda>prefix.
            case statefulSetLister s (chiNamespace c, CreateStatefulSetName d prefix) of
              Inr found \<Rightarrow> CreatePodHostname d (chiNamespace c) prefix
            | Inl err \<Rightarrow> []) ps
        @ drop (i + length ps) hs,
      s\<lparr>logs := logs s @
         map (\<lambda>prefix. InfoControlsStatefulSet (chiName c) (CreateStatefulSetName d prefix))
           (filter (\<lambda>prefix.
                  isFound (statefulSetLister s (chiNamespace c, CreateStatefulSetName d prefix)))
              ps)\<rparr>)"
  using assms
proof (induction ps arbitrary: i hs s)
  case Nil
  then show ?case by simp
next
  case (Cons p ps)
  have i: "i < length hs" using Cons.prems(1) by simp
  show ?case
  proof (cases "statefulSetLister s (chiNamespace c, CreateStatefulSetName d p)")
    case (Inl err)
    have len: "Suc i + length ps \<le> length hs" using Cons.prems(1) by simp
    have zero: "\<forall>j. Suc i \<le> j \<longrightarrow> j < length hs \<longrightarrow> hs ! j = []"
      using Cons.prems(2) by simp
    have "hs ! i = []" using Cons.prems(2) i by simp
    then have tk: "take (Suc i) hs = take i hs @ [[]]"
      using i by (simp add: take_Suc_conv_app_nth)
    show ?thesis
      using Inl Cons.IH [OF len zero, of s] tk by (simp add: isFound_def)
  next
    case (Inr found)
    let ?v = "CreatePodHostname d (chiNamespace c) p"
    let ?s1 = "emit (InfoControlsStatefulSet (chiName c) (CreateStatefulSetName d p)) s"
    have len: "Suc i + length ps \<le> length (hs[i := ?v])" using Cons.prems(1) by simp
    have zero: "\<forall>j. Suc i \<le> j \<longrightarrow> j < length (hs[i := ?v]) \<longrightarrow> hs[i := ?v] ! j = []"
      using Cons.prems(2) by simp
    have tk: "take (Suc i) (hs[i := ?v]) = take i hs @ [?v]"
      using i by (simp add: take_Suc_conv_app_nth)
    have lst: "statefulSetLister ?s1 = statefulSetLister s" by (simp add: emit_def)
    show ?thesis
      using Inr Cons.IH [OF len zero, of ?s1] tk lst by (simp add: isFound_def emit_def)
  qed
qed

lemma checkPrefixes_all:
  "checkPrefixes d c 0 (ObjectPrefixes (chiStatus c))
      (replicate (length (ObjectPrefixes (chiStatus c))) [], s) =
     (identities d c s, s\<lparr>logs := logs s @ controlledLines d c s\<rparr>)"
  by (subst checkPrefixes_eq) (simp_all add: identities_def controlledLines_def)

lemma syncItem_verify:
  assumes "SplitMetaNamespaceKey d key = Inr (namespace, name)"
      and "chopLister s (namespace, name) = Inr c"
      and "ObjectPrefixes (chiStatus c) \<noteq> []"
  shows "syncItem d key s =
     (None,
      if ControlledValuesExist d (metricsExporter s) (chiName c) (identities d c s)
      then s\<lparr>logs := logs s @ controlledLines d c s\<rparr>
      else s\<lparr>logs := logs s @ controlledLines d c s @ [InfoIncludingHostnames (chiName c)],
             metricsExporter := metricsExporter s @ [(chiName c, identities d c s)]\<rparr>)"
  using assms
  by (simp add: syncItem_def checkPrefixes_all emit_def UpdateControlledState_def)

lemma syncItem_create:
  assumes "SplitMetaNamespaceKey d key = Inr (namespace, name)"
      and "chopLister s (namespace, name) = Inr c"
      and "ObjectPrefixes (chiStatus c) = []"
  shows "syncItem d key s =
     (case createControlledResources d c s of
        (Inl err, s1) \<Rightarrow> (Some err, emit (InfoUnableToCreate (chiName c) err) s1)
      | (Inr prefixes, s1) \<Rightarrow>
         (case updateChiStatus c prefixes s1 of
            (Some err, s2) \<Rightarrow> (Some err, emit (InfoUnableToUpdateStatus (chiName c) err) s2)
          | (None, s2) \<Rightarrow> (None, emit (InfoSyncedCreated (chiName c) prefixes) s2)))"
  using assms by (simp add: syncItem_def)

lemma updateChiStatus_queue: "queue (snd (updateChiStatus c ps s)) = queue s"
  by (simp add: updateChiStatus_def Let_def split: prod.splits)

lemma syncItem_queue: "queue (snd (syncItem d key s)) = queue s"
proof (cases "SplitMetaNamespaceKey d key")
  case (Inl err)
  then show ?thesis by (simp add: syncItem_def emit_def)
next
  case (Inr nn)
  obtain namespace name where nn: "nn = (namespace, name)" by (cases nn)
  show ?thesis
  proof (cases "chopLister s (namespace, name)")
    case (Inl err)
    then show ?thesis using Inr nn by (simp add: syncItem_def emit_def)
  next
    case found: (Inr c)
    show ?thesis
    proof (cases "ObjectPrefixes (chiStatus c) = []")
      case False
      show ?thesis
        using syncItem_verify [OF Inr [unfolded nn] found False] by simp
    next
      case True
      obtain r s1 where cr: "createControlledResources d c s = (r, s1)"
        by (cases "createControlledResources d c s")
      have q1: "queue s1 = queue s"
      proof -
        have "s1 = s\<lparr>kubeClient := kubeClient s1\<rparr>"
          using createControlledResources_others [of d c s] cr by simp
        then show ?thesis by (rule ssubst) simp
      qed
      show ?thesis
      proof (cases r)
        case (Inl err)
        then show ?thesis
          using syncItem_create [OF Inr [unfolded nn] found True] cr q1 by (simp add: emit_def)
      next
        case (Inr prefixes)
        obtain e s2 where up: "updateChiStatus c prefixes s1 = (e, s2)"
          by (cases "updateChiStatus c prefixes s1")
        have "queue s2 = queue s1" using updateChiStatus_queue [of c prefixes s1] up by simp
        then show ?thesis
          using syncItem_create [OF \<open>SplitMetaNamespaceKey d key = Inr nn\<close> [unfolded nn] found True]
            cr q1 Inr up
          by (cases e) (simp_all add: emit_def)
      qed
    qed
  qed
qed


lemma createControlledResources_chop:
  "chopClient (snd (createControlledResources d c s)) = chopClient s"
  by (subst createControlledResources_others) simp

lemma syncItem_lookup_error:
  assumes "SplitMetaNamespaceKey d key = Inr (namespace, name)"
      and "chopLister s (namespace, name) = Inl err"
  shows "syncItem d key s =
     (if err = NotFound then (None, emit (ErrNoLongerExists key) s) else (Some err, s))"
  using assms by (cases err) (simp_all add: syncItem_def IsNotFound_def)

text \<open>
  Whatever the item and the outcome of its reconciliation, one pass of the worker calls
  \<open>Get\<close>, possibly \<open>Forget\<close>, and \<open>Done\<close>; it never calls \<open>AddRateLimited\<close>.
\<close>

lemma processNextWorkItem_calls:
  assumes "processNextWorkItem d s = Some (continue, s1)"
  shows "\<exists>cs. calls (queue s1) = calls (queue s) @ cs
           \<and> (\<forall>it n. QAddRateLimited it n \<notin> set cs)"
proof -
  obtain it shutdown q where got: "queue_Get (queue s) = Some ((it, shutdown), q)"
    using assms by (auto simp: processNextWorkItem_def split: option.splits)
  have q: "calls q = calls (queue s) @ [QGet]"
    using got by (auto simp: queue_Get_def split: list.splits if_splits)
  show ?thesis
  proof (cases shutdown)
    case True
    then have "s1 = s\<lparr>queue := q\<rparr>" using assms got by (simp add: processNextWorkItem_def)
    then show ?thesis using q by simp
  next
    case False
    obtain err s2 where pi: "processItem d it (s\<lparr>queue := q\<rparr>) = (err, s2)"
      by (cases "processItem d it (s\<lparr>queue := q\<rparr>)")
    have c2: "calls (queue s2) = calls q \<or> calls (queue s2) = calls q @ [QForget it]"
    proof (cases it)
      case (StringItem key)
      obtain e s3 where sy: "syncItem d key (s\<lparr>queue := q\<rparr>) = (e, s3)"
        by (cases "syncItem d key (s\<lparr>queue := q\<rparr>)")
      have "queue s3 = q" using syncItem_queue [of d key "s\<lparr>queue := q\<rparr>"] sy by simp
      then show ?thesis
        using pi StringItem sy by (cases e) (auto simp: processItem_def queue_Forget_def)
    next
      case (OtherItem n)
      then show ?thesis using pi by (auto simp: processItem_def queue_Forget_def emit_def)
    next
      case NilItem
      then show ?thesis using pi by (auto simp: processItem_def queue_Forget_def emit_def)
    qed
    have "calls (queue s1) = calls (queue s2) @ [QDone it]"
      using assms got False pi
      by (cases err) (auto simp: processNextWorkItem_def queue_Done_def Let_def emit_def)
    then show ?thesis using c2 q by auto
  qed
qed

text \<open>
  The pass of the worker over a well-formed key whose lookup fails: on \<open>NotFound\<close> the
  sync returns nil and the pass calls \<open>Forget\<close> and \<open>Done\<close>; on any other error the sync
  returns it and the pass calls \<open>Done\<close> alone. In both cases the queue holds the items
  that \<open>Get\<close> left.
\<close>

lemma lookup_failure_pass:
  assumes key: "SplitMetaNamespaceKey d key = Inr (namespace, name)"
      and lookup: "chopLister s (namespace, name) = Inl err"
      and got: "queue_Get (queue s) = Some ((StringItem key, False), q)"
  shows "fst (syncItem d key (s\<lparr>queue := q\<rparr>)) = (if err = NotFound then None else Some err)
         \<and> (\<exists>s1. processNextWorkItem d s = Some (True, s1)
               \<and> calls (queue s1)
                   = calls q @ (if err = NotFound then [QForget (StringItem key)] else [])
                       @ [QDone (StringItem key)]
               \<and> queueItems (queue s1) = queueItems q
               \<and> failures (queue s1)
                   = (if err = NotFound then (failures q)(StringItem key := 0) else failures q))"
proof -
  let ?it = "StringItem key"
  let ?s0 = "s\<lparr>queue := q\<rparr>"
  have lk: "chopLister ?s0 (namespace, name) = Inl err" using lookup by simp
  have sync: "syncItem d key ?s0 =
      (if err = NotFound then (None, emit (ErrNoLongerExists key) ?s0) else (Some err, ?s0))"
    by (rule syncItem_lookup_error [OF key lk])
  have nd: "?it \<notin> set (dirty q)"
    using got by (auto simp: queue_Get_def split: list.splits if_splits)
  show ?thesis
  proof (cases "err = NotFound")
    case True
    have "processNextWorkItem d s =
        Some (True, (emit (ErrNoLongerExists key) ?s0)
                      \<lparr>queue := queue_Done ?it (queue_Forget ?it q)\<rparr>)"
      using got sync True by (simp add: processNextWorkItem_def processItem_def emit_def)
    then show ?thesis
      using sync True nd by (simp add: queue_Done_def queue_Forget_def Let_def)
  next
    case False
    have "processNextWorkItem d s =
        Some (True, emit (ErrReported (UnableToSync key err)) (?s0\<lparr>queue := queue_Done ?it q\<rparr>))"
      using got sync False by (simp add: processNextWorkItem_def processItem_def emit_def)
    then show ?thesis
      using sync False nd by (simp add: queue_Done_def Let_def emit_def)
  qed
qed

section \<open>The properties\<close>

subsection \<open>C1: a failed reconciliation\<close>

text \<open>
  C1 at a failing input: in \<open>faultyWorld\<close> the reconciliation of \<open>ns1/demo\<close> returns a
  transient Store error. The worker then calls \<open>Done\<close> and nothing else: no
  \<open>AddRateLimited\<close>, the key is neither queued nor marked dirty afterwards, and no
  failure has been counted for it. The comment in \<open>processNextWorkItem\<close> says that the
  item will be retried later.
\<close>

theorem failed_sync_is_not_requeued:
  "fst (syncItem demoDeps ''ns1/demo'' faultyWorld) = Some (StoreError ''timeout'')
   \<and> map_option (\<lambda>(continue, s).
          (continue, calls (queue s), queueItems (queue s), dirty (queue s),
           failures (queue s) (StringItem ''ns1/demo'')))
        (processNextWorkItem demoDeps faultyWorld)
       = Some (True, [QGet, QDone (StringItem ''ns1/demo'')], [], [], 0)"
  by (simp add: demo_defs code_defs Let_def)

subsection \<open>C2: a Create that answers AlreadyExists\<close>

text \<open>
  C2 as stated fails. In \<open>racedWorld\<close> the first ConfigMap is absent from the watch
  cache and stored by another creator, so \<open>Create\<close> answers \<open>AlreadyExists\<close>:
  \<open>createConfigMap\<close> returns that error, not nil, and the creation phase aborts with it.
\<close>

theorem create_already_exists_counterexample:
  "configMapLister racedWorld (chiNamespace demoChi, objName (demoObject ''cm-demo-0''))
     = Inl NotFound
   \<and> fst (kube_Create ConfigMap (chiNamespace demoChi) (demoObject ''cm-demo-0'')
            (kubeClient racedWorld)) = Some AlreadyExists
   \<and> fst (createConfigMap demoChi (demoObject ''cm-demo-0'') racedWorld) = Some AlreadyExists
   \<and> fst (createControlledResources demoDeps demoChi racedWorld) = Inl AlreadyExists"
  by (simp add: demo_defs code_defs Let_def)

text \<open>
  C2, amended: for every dependent object that the watch cache answers \<open>NotFound\<close> for,
  if the Store \<open>Create\<close> call fails with \<open>AlreadyExists\<close>, the create helper of its kind
  returns that error, the creation phase stops at that object with the same error, and
  the stored objects are left as they were.
\<close>

theorem create_returns_already_exists:
  assumes "lister k s (chiNamespace c, objName obj) = Inl NotFound"
      and "fst (kube_Create k (chiNamespace c) obj (kubeClient s)) = Some AlreadyExists"
  shows "fst (createDependent c (k, obj) s) = Some AlreadyExists
         \<and> fst (createAll c ((k, obj) # rest) s) = Some AlreadyExists
         \<and> objects (kubeClient (snd (createAll c ((k, obj) # rest) s))) = objects (kubeClient s)"
proof -
  have one: "fst (createDependent c (k, obj) s) = Some AlreadyExists"
    using assms by (auto simp: createDependent_eq IsNotFound_def split: prod.splits)
  obtain s1 where s1: "createDependent c (k, obj) s = (Some AlreadyExists, s1)"
    using one by (cases "createDependent c (k, obj) s") simp
  have "objects (kubeClient s1) key = objects (kubeClient s) key" for key
    using createDependent_objects [of c "(k, obj)" s key] s1 by auto
  then have "objects (kubeClient s1) = objects (kubeClient s)" by (rule ext)
  then show ?thesis using s1 by simp
qed

text \<open>The amended C2 at the first ConfigMap of \<open>racedWorld\<close>.\<close>

theorem create_returns_already_exists_witness:
  "lister ConfigMap racedWorld (chiNamespace demoChi, objName (demoObject ''cm-demo-0''))
     = Inl NotFound
   \<and> fst (kube_Create ConfigMap (chiNamespace demoChi) (demoObject ''cm-demo-0'')
            (kubeClient racedWorld)) = Some AlreadyExists
   \<and> fst (createDependent demoChi (ConfigMap, demoObject ''cm-demo-0'') racedWorld)
       = Some AlreadyExists
   \<and> fst (createAll demoChi
            ((ConfigMap, demoObject ''cm-demo-0'') # [(ConfigMap, demoObject ''cm-demo-1'')])
            racedWorld) = Some AlreadyExists"
proof -
  have h1: "lister ConfigMap racedWorld (chiNamespace demoChi, objName (demoObject ''cm-demo-0''))
     = Inl NotFound"
    by (simp add: lister_def demo_defs)
  have h2: "fst (kube_Create ConfigMap (chiNamespace demoChi) (demoObject ''cm-demo-0'')
            (kubeClient racedWorld)) = Some AlreadyExists"
    by (simp add: demo_defs code_defs Let_def)
  show ?thesis
    using h1 h2 create_returns_already_exists [OF h1 h2, of "[(ConfigMap, demoObject ''cm-demo-1'')]"]
    by simp
qed

subsection \<open>C3: idempotent create\<close>

text \<open>
  C3 as stated fails. In \<open>staleCacheWorld\<close> the watch cache still shows the first
  ConfigMap, which the Store does not hold. The first creation phase trusts the cache,
  skips that ConfigMap and completes without error; nothing is stored under its name.
  With the cache then refreshed from the Store, so that it reflects every write of the
  first phase, the second phase issues a \<open>Create\<close> call for that ConfigMap.
\<close>

theorem stale_cache_counterexample:
  "fst (createControlledResources demoDeps demoChi staleCacheWorld) = Inr [''demo-0'', ''demo-1'']
   \<and> cacheReflects (refreshed (snd (createControlledResources demoDeps demoChi staleCacheWorld)))
        demoChi (dependents (fst (CreateObjects demoDeps demoChi)))
   \<and> objects (kubeClient (snd (createControlledResources demoDeps demoChi staleCacheWorld)))
        (ConfigMap, ''ns1'', ''cm-demo-0'') = None
   \<and> createCalls (kubeClient (snd (createControlledResources demoDeps demoChi
         (refreshed (snd (createControlledResources demoDeps demoChi staleCacheWorld))))))
       = createCalls (kubeClient (snd (createControlledResources demoDeps demoChi staleCacheWorld)))
           @ [(ConfigMap, ''ns1'', ''cm-demo-0'')]"
  by (simp add: demo_defs code_defs aux_defs Let_def)

text \<open>
  C3, amended: a create helper whose watch-cache lookup returns an object returns nil and
  leaves the state as it is, so it issues no Store \<open>Create\<close> call (the last three
  conjuncts). Hence, when a first creation phase has completed without error from a
  state whose cache showed no dependent object that the Store did not hold, and the
  second phase runs on the Store the first one left with a cache that shows every stored
  dependent object, the second phase returns the same prefixes and changes nothing: it
  issues zero create calls, and the Store holds an object under the key (kind, namespace,
  name) of every dependent object; the Store being a map, that is exactly one per name.
\<close>

theorem creation_phase_idempotent:
  assumes first: "fst (createControlledResources d c s) = Inr prefixes"
      and sound: "cacheSound s c (dependents (fst (CreateObjects d c)))"
      and store: "kubeClient s2 = kubeClient (snd (createControlledResources d c s))"
      and refl: "cacheReflects s2 c (dependents (fst (CreateObjects d c)))"
  shows "createControlledResources d c s2 = (Inr prefixes, s2)
         \<and> createCalls (kubeClient (snd (createControlledResources d c s2)))
             = createCalls (kubeClient s2)
         \<and> list_all (inStore s2 c) (dependents (fst (CreateObjects d c)))
         \<and> (\<forall>w obj. isFound (configMapLister w (chiNamespace c, objName obj))
               \<longrightarrow> createConfigMap c obj w = (None, w))
         \<and> (\<forall>w obj. isFound (serviceLister w (chiNamespace c, objName obj))
               \<longrightarrow> createService c obj w = (None, w))
         \<and> (\<forall>w obj. isFound (statefulSetLister w (chiNamespace c, objName obj))
               \<longrightarrow> createStatefulSet c obj w = (None, w))"
proof -
  let ?kos = "dependents (fst (CreateObjects d c))"
  let ?s1 = "snd (createAll c ?kos s)"
  have ok: "fst (createAll c ?kos s) = None" and ps: "prefixes = snd (CreateObjects d c)"
    using first by (simp_all add: createControlledResources_result)
  have s1: "kubeClient s2 = kubeClient ?s1"
    using store by (simp add: createControlledResources_state)
  have stored: "inStore s2 c ko" if "ko \<in> set ?kos" for ko
  proof -
    have "inCache s c ko \<or> inStore ?s1 c ko" using ok that by (rule createAll_stored)
    then show ?thesis
    proof
      assume "inCache s c ko"
      then have "inStore s c ko" using sound that by (auto simp: cacheSound_def list_all_iff)
      then obtain x where "objects (kubeClient s) (keyOf c ko) = Some x"
        by (auto simp: inStore_def)
      then have "objects (kubeClient ?s1) (keyOf c ko) = Some x" by (rule createAll_keeps)
      then show ?thesis using s1 by (simp add: inStore_def)
    next
      assume "inStore ?s1 c ko"
      then show ?thesis using s1 by (simp add: inStore_def)
    qed
  qed
  then have all_stored: "list_all (inStore s2 c) ?kos" by (simp add: list_all_iff)
  have "list_all (inCache s2 c) ?kos"
    using refl stored by (auto simp: cacheReflects_def list_all_iff)
  then have second: "createAll c ?kos s2 = (None, s2)" by (rule createAll_cached)
  then have pass2: "createControlledResources d c s2 = (Inr prefixes, s2)"
    by (simp add: createControlledResources_flat ps)
  have cm: "createConfigMap c obj w = (None, w)"
    if "isFound (configMapLister w (chiNamespace c, objName obj))" for w obj
    using that by (auto simp: createConfigMap_def isFound_def split: sum.splits)
  have sv: "createService c obj w = (None, w)"
    if "isFound (serviceLister w (chiNamespace c, objName obj))" for w obj
    using that by (auto simp: createService_def isFound_def split: sum.splits)
  have ss: "createStatefulSet c obj w = (None, w)"
    if "isFound (statefulSetLister w (chiNamespace c, objName obj))" for w obj
    using that by (auto simp: createStatefulSet_def isFound_def split: sum.splits)
  show ?thesis using pass2 all_stored cm sv ss by simp
qed

text \<open>
  The amended C3 from \<open>warmWorld\<close>, whose cache shows the first ConfigMap and whose Store
  holds it: the first phase skips it and creates the five other objects, the cache is
  refreshed from the Store, and the second phase creates nothing.
\<close>

theorem creation_phase_idempotent_witness:
  "fst (createControlledResources demoDeps demoChi warmWorld) = Inr [''demo-0'', ''demo-1'']
   \<and> inCache warmWorld demoChi (ConfigMap, demoObject ''cm-demo-0'')
   \<and> cacheSound warmWorld demoChi (dependents (fst (CreateObjects demoDeps demoChi)))
   \<and> cacheReflects (refreshed (snd (createControlledResources demoDeps demoChi warmWorld)))
        demoChi (dependents (fst (CreateObjects demoDeps demoChi)))
   \<and> createCalls (kubeClient (snd (createControlledResources demoDeps demoChi warmWorld)))
       = [(ConfigMap, ''ns1'', ''cm-demo-1''),
          (Service, ''ns1'', ''svc-demo-0''), (Service, ''ns1'', ''svc-demo-1''),
          (StatefulSet, ''ns1'', ''ss-demo-0''), (StatefulSet, ''ns1'', ''ss-demo-1'')]
   \<and> createCalls (kubeClient (snd (createControlledResources demoDeps demoChi
         (refreshed (snd (createControlledResources demoDeps demoChi warmWorld))))))
       = createCalls (kubeClient (snd (createControlledResources demoDeps demoChi warmWorld)))
   \<and> list_all (inStore (refreshed (snd (createControlledResources demoDeps demoChi warmWorld)))
        demoChi) (dependents demoObjects)
   \<and> isFound (configMapLister
        (refreshed (snd (createControlledResources demoDeps demoChi warmWorld)))
        (chiNamespace demoChi, objName (demoObject ''cm-demo-0'')))
   \<and> fst (createConfigMap demoChi (demoObject ''cm-demo-0'')
        (refreshed (snd (createControlledResources demoDeps demoChi warmWorld)))) = None"
proof -
  let ?s1 = "snd (createControlledResources demoDeps demoChi warmWorld)"
  have h1: "fst (createControlledResources demoDeps demoChi warmWorld) = Inr [''demo-0'', ''demo-1'']"
    by (simp add: demo_defs code_defs Let_def)
  have h0: "inCache warmWorld demoChi (ConfigMap, demoObject ''cm-demo-0'')"
    by (simp add: demo_defs aux_defs)
  have h2: "cacheSound warmWorld demoChi (dependents (fst (CreateObjects demoDeps demoChi)))"
    by (simp add: demo_defs aux_defs)
  have h3: "kubeClient (refreshed ?s1) = kubeClient ?s1"
    by (simp add: refreshed_def)
  have h4: "cacheReflects (refreshed ?s1) demoChi (dependents (fst (CreateObjects demoDeps demoChi)))"
    by (simp add: demo_defs code_defs aux_defs Let_def)
  have h5: "isFound (configMapLister (refreshed ?s1)
      (chiNamespace demoChi, objName (demoObject ''cm-demo-0'')))"
    by (simp add: demo_defs code_defs aux_defs Let_def)
  have h6: "createCalls (kubeClient ?s1)
       = [(ConfigMap, ''ns1'', ''cm-demo-1''),
          (Service, ''ns1'', ''svc-demo-0''), (Service, ''ns1'', ''svc-demo-1''),
          (StatefulSet, ''ns1'', ''ss-demo-0''), (StatefulSet, ''ns1'', ''ss-demo-1'')]"
    by (simp add: demo_defs code_defs Let_def)
  have o: "fst (CreateObjects demoDeps demoChi) = demoObjects" by (simp add: demoDeps_def)
  note t = creation_phase_idempotent [OF h1 h2 h3 h4]
  have t1: "createControlledResources demoDeps demoChi (refreshed ?s1)
      = (Inr [''demo-0'', ''demo-1''], refreshed ?s1)"
    using t by (rule conjunct1)
  have t3: "list_all (inStore (refreshed ?s1) demoChi) (dependents demoObjects)"
    using t [unfolded o] by (rule conjunct1 [OF conjunct2 [OF conjunct2]])
  have t4: "\<forall>w obj. isFound (configMapLister w (chiNamespace demoChi, objName obj))
               \<longrightarrow> createConfigMap demoChi obj w = (None, w)"
    using t by (rule conjunct1 [OF conjunct2 [OF conjunct2 [OF conjunct2]]])
  have t5: "fst (createConfigMap demoChi (demoObject ''cm-demo-0'') (refreshed ?s1)) = None"
    using t4 h5 by simp
  show ?thesis
    using h0 h1 h2 h4 h5 h6 t3 t5 by (simp add: t1 h3)
qed

subsection \<open>C4: the status records the generated prefixes\<close>

text \<open>
  C4: when the sync of a key finds the resource with an empty status and the creation
  phase completes without error, the phase hands back the prefix list of the Manifest
  Generator, and the Status Updater issues one \<open>Update\<close> call whose resource carries
  exactly that list, in that order, as \<open>status.objectPrefixes\<close>. The sync returns what
  that call returns, and when it returns nil the Store holds the resource with that
  status.
\<close>

theorem status_records_generated_prefixes:
  assumes key: "SplitMetaNamespaceKey d key = Inr (namespace, name)"
      and found: "chopLister s (namespace, name) = Inr c"
      and empty: "ObjectPrefixes (chiStatus c) = []"
      and phase: "fst (createControlledResources d c s) = Inr prefixes"
  shows "prefixes = snd (CreateObjects d c)
         \<and> updateCalls (chopClient (snd (syncItem d key s)))
             = updateCalls (chopClient s)
                 @ [c\<lparr>chiStatus := \<lparr>ObjectPrefixes = snd (CreateObjects d c)\<rparr>\<rparr>]
         \<and> fst (syncItem d key s)
             = fst (chop_Update (chiNamespace c)
                      (c\<lparr>chiStatus := \<lparr>ObjectPrefixes = snd (CreateObjects d c)\<rparr>\<rparr>)
                      (chopClient s))
         \<and> (fst (syncItem d key s) = None \<longrightarrow>
              chis (chopClient (snd (syncItem d key s))) (chiNamespace c, chiName c)
                = Some (c\<lparr>chiStatus := \<lparr>ObjectPrefixes = snd (CreateObjects d c)\<rparr>\<rparr>))"
proof -
  let ?upd = "c\<lparr>chiStatus := \<lparr>ObjectPrefixes = snd (CreateObjects d c)\<rparr>\<rparr>"
  obtain s1 where cr: "createControlledResources d c s = (Inr prefixes, s1)"
    using phase by (cases "createControlledResources d c s") simp
  have ps: "prefixes = snd (CreateObjects d c)"
    using phase by (simp add: createControlledResources_result)
  have cc: "chopClient s1 = chopClient s"
    using createControlledResources_chop [of d c s] cr by simp
  obtain e cc1 where up: "chop_Update (chiNamespace c) ?upd (chopClient s) = (e, cc1)"
    by (cases "chop_Update (chiNamespace c) ?upd (chopClient s)")
  have sync: "syncItem d key s =
      (case e of
         Some err \<Rightarrow> (Some err, emit (InfoUnableToUpdateStatus (chiName c) err) (s1\<lparr>chopClient := cc1\<rparr>))
       | None \<Rightarrow> (None, emit (InfoSyncedCreated (chiName c) prefixes) (s1\<lparr>chopClient := cc1\<rparr>)))"
    using syncItem_create [OF key found empty] cr cc up ps
    by (simp add: updateChiStatus_def split: option.splits)
  have client: "chopClient (snd (syncItem d key s)) = cc1"
    using sync by (cases e) (simp_all add: emit_def)
  have res: "fst (syncItem d key s) = e" using sync by (cases e) simp_all
  have calls: "updateCalls cc1 = updateCalls (chopClient s) @ [?upd]"
    using up by (auto simp: chop_Update_def Let_def split: option.splits)
  have stored: "chis cc1 (chiNamespace c, chiName c) = Some ?upd" if "e = None"
    using up that by (auto simp: chop_Update_def Let_def split: option.splits)
  show ?thesis using ps client res calls stored up by simp
qed

text \<open>C4 on the installation \<open>demo\<close>: the status becomes \<open>demo-0\<close>, \<open>demo-1\<close>.\<close>

theorem status_records_generated_prefixes_witness:
  "SplitMetaNamespaceKey demoDeps ''ns1/demo'' = Inr (''ns1'', ''demo'')
   \<and> chopLister demoWorld (''ns1'', ''demo'') = Inr demoChi
   \<and> ObjectPrefixes (chiStatus demoChi) = []
   \<and> fst (createControlledResources demoDeps demoChi demoWorld) = Inr [''demo-0'', ''demo-1'']
   \<and> fst (syncItem demoDeps ''ns1/demo'' demoWorld) = None
   \<and> updateCalls (chopClient (snd (syncItem demoDeps ''ns1/demo'' demoWorld))) = [demoSynced]
   \<and> chis (chopClient (snd (syncItem demoDeps ''ns1/demo'' demoWorld))) (''ns1'', ''demo'')
       = Some demoSynced"
proof -
  have h1: "SplitMetaNamespaceKey demoDeps ''ns1/demo'' = Inr (''ns1'', ''demo'')"
    by (simp add: demoDeps_def)
  have h2: "chopLister demoWorld (''ns1'', ''demo'') = Inr demoChi"
    by (simp add: demoWorld_def)
  have h3: "ObjectPrefixes (chiStatus demoChi) = []"
    by (simp add: demoChi_def)
  have h4: "fst (createControlledResources demoDeps demoChi demoWorld) = Inr [''demo-0'', ''demo-1'']"
    by (simp add: demo_defs code_defs Let_def)
  have u: "fst (chop_Update (chiNamespace demoChi) demoSynced (chopClient demoWorld)) = None"
    by (simp add: demo_defs code_defs Let_def)
  have g: "snd (CreateObjects demoDeps demoChi) = [''demo-0'', ''demo-1'']"
    by (simp add: demoDeps_def)
  have n: "chiNamespace demoChi = ''ns1''" "chiName demoChi = ''demo''"
    by (simp_all add: demoChi_def)
  have e: "updateCalls (chopClient demoWorld) = []" by (simp add: demoWorld_def)
  note t = status_records_generated_prefixes [OF h1 h2 h3 h4, unfolded g n e, folded demoSynced_def]
  show ?thesis
    using h1 h2 h3 h4 t u [unfolded n] by simp
qed

subsection \<open>C5: an error aborts the creation phase\<close>

text \<open>
  C5: let the sync of a key find the resource with an empty status, and let \<open>x\<close> be a
  dependent object of the generated lists such that every object before it is handled
  without error and the create of \<open>x\<close>, in the state these leave, returns an error. Then
  the creation phase returns that error in the state the failing create left, the sync
  returns the same error, and the Status Updater is not invoked: the Store of the Custom
  Resource, with its record of \<open>Update\<close> calls, is as before. No later object is created:
  the stored objects are those present after the objects before \<open>x\<close>, and every \<open>Create\<close>
  call of the phase is for an object up to \<open>x\<close>.
\<close>

theorem creation_error_aborts_phase:
  assumes key: "SplitMetaNamespaceKey d key = Inr (namespace, name)"
      and found: "chopLister s (namespace, name) = Inr c"
      and empty: "ObjectPrefixes (chiStatus c) = []"
      and order: "dependents (fst (CreateObjects d c)) = pre @ x # rest"
      and before: "fst (createAll c pre s) = None"
      and fails: "fst (createDependent c x (snd (createAll c pre s))) = Some err"
  shows "createControlledResources d c s
           = (Inl err, snd (createDependent c x (snd (createAll c pre s))))
         \<and> fst (syncItem d key s) = Some err
         \<and> chopClient (snd (syncItem d key s)) = chopClient s
         \<and> kubeClient (snd (syncItem d key s))
             = kubeClient (snd (createDependent c x (snd (createAll c pre s))))
         \<and> objects (kubeClient (snd (syncItem d key s)))
             = objects (kubeClient (snd (createAll c pre s)))
         \<and> (\<exists>cs. createCalls (kubeClient (snd (syncItem d key s)))
                    = createCalls (kubeClient s) @ cs
                  \<and> set cs \<subseteq> keyOf c ` set (pre @ [x]))"
proof -
  let ?kos = "dependents (fst (CreateObjects d c))"
  obtain s0 where p: "createAll c pre s = (None, s0)"
    using before by (cases "createAll c pre s") simp
  obtain s1 where f: "createDependent c x s0 = (Some err, s1)"
    using fails p by (cases "createDependent c x s0") simp
  have upto: "createAll c (pre @ [x]) s = (Some err, s1)"
    by (simp add: createAll_append p f)
  have "createAll c ?kos s = (Some err, s1)"
    unfolding order by (simp add: createAll_append p f)
  then have phase: "createControlledResources d c s = (Inl err, s1)"
    by (simp add: createControlledResources_flat)
  have sync: "syncItem d key s = (Some err, emit (InfoUnableToCreate (chiName c) err) s1)"
    using syncItem_create [OF key found empty] phase by simp
  have cc: "chopClient s1 = chopClient s"
    using createControlledResources_chop [of d c s] phase by simp
  have "objects (kubeClient s1) k = objects (kubeClient s0) k" for k
    using createDependent_objects [of c x s0 k] f by auto
  then have objs: "objects (kubeClient s1) = objects (kubeClient s0)" by (rule ext)
  have calls: "\<exists>cs. createCalls (kubeClient s1) = createCalls (kubeClient s) @ cs
      \<and> set cs \<subseteq> keyOf c ` set (pre @ [x])"
    using createAll_calls [of c "pre @ [x]" s] upto by simp
  have k: "kubeClient (snd (syncItem d key s)) = kubeClient s1"
    using sync by (simp add: emit_def)
  have r: "fst (syncItem d key s) = Some err" "chopClient (snd (syncItem d key s)) = chopClient s"
    using sync cc by (simp_all add: emit_def)
  have e0: "snd (createAll c pre s) = s0" by (simp add: p)
  have e1: "snd (createDependent c x s0) = s1" by (simp add: f)
  show ?thesis
    unfolding e0 e1 k using phase objs calls r by simp
qed

text \<open>
  C5 in \<open>faultyWorld\<close>: the two ConfigMaps are created, the create of the first Service
  fails, and the phase and the sync return its error with the status untouched.
\<close>

theorem creation_error_aborts_phase_witness:
  "SplitMetaNamespaceKey demoDeps ''ns1/demo'' = Inr (''ns1'', ''demo'')
   \<and> chopLister faultyWorld (''ns1'', ''demo'') = Inr demoChi
   \<and> ObjectPrefixes (chiStatus demoChi) = []
   \<and> dependents (fst (CreateObjects demoDeps demoChi))
       = [(ConfigMap, demoObject ''cm-demo-0''), (ConfigMap, demoObject ''cm-demo-1'')]
         @ (Service, demoObject ''svc-demo-0'')
         # [(Service, demoObject ''svc-demo-1''), (StatefulSet, demoObject ''ss-demo-0''),
            (StatefulSet, demoObject ''ss-demo-1'')]
   \<and> fst (createAll demoChi
        [(ConfigMap, demoObject ''cm-demo-0''), (ConfigMap, demoObject ''cm-demo-1'')]
        faultyWorld) = None
   \<and> fst (createService demoChi (demoObject ''svc-demo-0'')
        (snd (createAll demoChi
           [(ConfigMap, demoObject ''cm-demo-0''), (ConfigMap, demoObject ''cm-demo-1'')]
           faultyWorld))) = Some (StoreError ''timeout'')
   \<and> fst (createControlledResources demoDeps demoChi faultyWorld) = Inl (StoreError ''timeout'')
   \<and> fst (syncItem demoDeps ''ns1/demo'' faultyWorld) = Some (StoreError ''timeout'')
   \<and> chopClient (snd (syncItem demoDeps ''ns1/demo'' faultyWorld)) = chopClient faultyWorld
   \<and> updateCalls (chopClient faultyWorld) = []"
proof -
  let ?pre = "[(ConfigMap, demoObject ''cm-demo-0''), (ConfigMap, demoObject ''cm-demo-1'')]"
  let ?x = "(Service, demoObject ''svc-demo-0'')"
  let ?rest = "[(Service, demoObject ''svc-demo-1''), (StatefulSet, demoObject ''ss-demo-0''),
            (StatefulSet, demoObject ''ss-demo-1'')]"
  have h1: "SplitMetaNamespaceKey demoDeps ''ns1/demo'' = Inr (''ns1'', ''demo'')"
    by (simp add: demoDeps_def)
  have h2: "chopLister faultyWorld (''ns1'', ''demo'') = Inr demoChi"
    by (simp add: faultyWorld_def demoWorld_def)
  have h3: "ObjectPrefixes (chiStatus demoChi) = []"
    by (simp add: demoChi_def)
  have h4: "dependents (fst (CreateObjects demoDeps demoChi)) = ?pre @ ?x # ?rest"
    by (simp add: demoDeps_def demoObjects_def)
  have h5: "fst (createAll demoChi ?pre faultyWorld) = None"
    by (simp add: demo_defs code_defs aux_defs Let_def)
  have h6: "fst (createDependent demoChi ?x (snd (createAll demoChi ?pre faultyWorld)))
      = Some (StoreError ''timeout'')"
    by (simp add: demo_defs code_defs aux_defs Let_def)
  have h6': "fst (createService demoChi (demoObject ''svc-demo-0'')
      (snd (createAll demoChi ?pre faultyWorld))) = Some (StoreError ''timeout'')"
    using h6 by (simp add: createDependent_def)
  have u: "updateCalls (chopClient faultyWorld) = []"
    by (simp add: faultyWorld_def demoWorld_def)
  note t = creation_error_aborts_phase [OF h1 h2 h3 h4 h5 h6]
  have t1: "fst (createControlledResources demoDeps demoChi faultyWorld) = Inl (StoreError ''timeout'')"
    using t by simp
  have t2: "fst (syncItem demoDeps ''ns1/demo'' faultyWorld) = Some (StoreError ''timeout'')"
    using t by (rule conjunct1 [OF conjunct2])
  have t3: "chopClient (snd (syncItem demoDeps ''ns1/demo'' faultyWorld)) = chopClient faultyWorld"
    using t by (rule conjunct1 [OF conjunct2 [OF conjunct2]])
  show ?thesis
    using h1 h2 h3 h4 h5 h6' t1 t2 t3 u by simp
qed

subsection \<open>C6: the verification phase\<close>

text \<open>
  C6 as stated fails in one point: the absence of a StatefulSet is not logged. In
  \<open>lostWorld\<close> the resource has the status \<open>demo-0\<close>, \<open>demo-1\<close>, the cache answers
  \<open>NotFound\<close> for the StatefulSet of \<open>demo-0\<close> (and of \<open>demo-1\<close>), and the sync returns nil
  having written no log line at all.
\<close>

theorem missing_statefulset_counterexample:
  "SplitMetaNamespaceKey demoDeps ''ns1/demo'' = Inr (''ns1'', ''demo'')
   \<and> chopLister lostWorld (''ns1'', ''demo'') = Inr demoSynced
   \<and> ObjectPrefixes (chiStatus demoSynced) = [''demo-0'', ''demo-1'']
   \<and> statefulSetLister lostWorld
        (chiNamespace demoSynced, CreateStatefulSetName demoDeps ''demo-0'') = Inl NotFound
   \<and> fst (syncItem demoDeps ''ns1/demo'' lostWorld) = None
   \<and> logs (snd (syncItem demoDeps ''ns1/demo'' lostWorld)) = logs lostWorld
   \<and> logs lostWorld = []"
  by (simp add: demo_defs code_defs Let_def)

text \<open>
  C6, amended: for every key whose Custom Resource has a non-empty
  \<open>status.objectPrefixes\<close>, the sync runs the verification phase: it returns nil and
  leaves both Stores and the work queue as they were, so it issues no create call for
  any dependent object and no status update. A recorded prefix whose StatefulSet the
  watch cache does not return is passed over silently and nothing is created again for
  it: the only lines logged are one for each prefix whose StatefulSet is found and, when
  the exporter does not hold the identity list, the line that announces its update.
\<close>

theorem verification_phase_creates_nothing:
  assumes key: "SplitMetaNamespaceKey d key = Inr (namespace, name)"
      and found: "chopLister s (namespace, name) = Inr c"
      and status: "ObjectPrefixes (chiStatus c) \<noteq> []"
  shows "fst (syncItem d key s) = None
         \<and> kubeClient (snd (syncItem d key s)) = kubeClient s
         \<and> chopClient (snd (syncItem d key s)) = chopClient s
         \<and> queue (snd (syncItem d key s)) = queue s
         \<and> logs (snd (syncItem d key s))
             = logs s @ controlledLines d c s
                 @ (if ControlledValuesExist d (metricsExporter s) (chiName c) (identities d c s)
                    then [] else [InfoIncludingHostnames (chiName c)])"
  using syncItem_verify [OF key found status] by simp

text \<open>
  The amended C6 in \<open>driftedWorld\<close>: the one line logged is for the StatefulSet of
  \<open>demo-1\<close>, which the cache shows.
\<close>

theorem verification_phase_creates_nothing_witness:
  "SplitMetaNamespaceKey demoDeps ''ns1/demo'' = Inr (''ns1'', ''demo'')
   \<and> chopLister driftedWorld (''ns1'', ''demo'') = Inr demoSynced
   \<and> ObjectPrefixes (chiStatus demoSynced) \<noteq> []
   \<and> fst (syncItem demoDeps ''ns1/demo'' driftedWorld) = None
   \<and> kubeClient (snd (syncItem demoDeps ''ns1/demo'' driftedWorld)) = kubeClient driftedWorld
   \<and> logs (snd (syncItem demoDeps ''ns1/demo'' driftedWorld))
       = [InfoControlsStatefulSet ''demo'' ''ss-demo-1'']"
proof -
  have h1: "SplitMetaNamespaceKey demoDeps ''ns1/demo'' = Inr (''ns1'', ''demo'')"
    by (simp add: demoDeps_def)
  have h2: "chopLister driftedWorld (''ns1'', ''demo'') = Inr demoSynced"
    by (simp add: driftedWorld_def demoWorld_def)
  have h3: "ObjectPrefixes (chiStatus demoSynced) \<noteq> []"
    by (simp add: demoSynced_def)
  have l: "controlledLines demoDeps demoSynced driftedWorld
      = [InfoControlsStatefulSet ''demo'' ''ss-demo-1'']"
    by (simp add: demo_defs aux_defs)
  have i: "identities demoDeps demoSynced driftedWorld = [[], ''demo-1.ns1'']"
    by (simp add: demo_defs aux_defs)
  have e: "ControlledValuesExist demoDeps (metricsExporter driftedWorld) (chiName demoSynced)
      [[], ''demo-1.ns1'']"
    by (simp add: demo_defs)
  have g: "logs driftedWorld = []" by (simp add: demo_defs)
  note t = verification_phase_creates_nothing [OF h1 h2 h3, unfolded l i g]
  show ?thesis using h1 h2 h3 t e by simp
qed

subsection \<open>C7: a resource that is gone\<close>

text \<open>
  C7 at a failing input: in \<open>brokenCacheWorld\<close> the key \<open>ns1/demo\<close> is well formed and
  the lookup of its resource fails with an error other than \<open>NotFound\<close>. \<open>syncItem\<close>
  returns that error, and the worker then calls \<open>Done\<close> and nothing else: the key is
  neither queued nor marked dirty afterwards and no failure is counted for it, so the
  error is returned and the key is not retried. The comment in \<open>processNextWorkItem\<close>
  says that the item will be retried later.
\<close>

theorem lookup_error_is_not_retried:
  "SplitMetaNamespaceKey demoDeps ''ns1/demo'' = Inr (''ns1'', ''demo'')
   \<and> chopLister brokenCacheWorld (''ns1'', ''demo'') = Inl (StoreError ''cache'')
   \<and> fst (syncItem demoDeps ''ns1/demo'' brokenCacheWorld) = Some (StoreError ''cache'')
   \<and> map_option (\<lambda>(continue, s).
          (continue, calls (queue s), queueItems (queue s), dirty (queue s),
           failures (queue s) (StringItem ''ns1/demo'')))
        (processNextWorkItem demoDeps brokenCacheWorld)
       = Some (True, [QGet, QDone (StringItem ''ns1/demo'')], [], [], 0)"
  by (simp add: demo_defs code_defs Let_def)

subsection \<open>C8: events of objects the controller does not own\<close>

text \<open>
  C8: when a dependent object has no controller owner reference, or its controller
  owner reference is of a kind other than the ClickHouseInstallation kind,
  \<open>handleObject\<close> leaves the state as it is, whether the object arrives as such or inside
  a tombstone: no work item is enqueued.
\<close>

theorem unowned_event_enqueues_nothing:
  assumes "GetControllerOf obj = None
           \<or> (\<exists>r. GetControllerOf obj = Some r
                    \<and> refKind r \<noteq> ClickHouseInstallationCRDResourceKind d)"
  shows "handleObject d (MetaObject obj) s = s
         \<and> handleObject d (DeletedFinalStateUnknown tsKey (MetaObject obj)) s = s"
  using assms by (auto simp: handleObject_def handleMetaObject_def)

text \<open>
  C8 for a StatefulSet without a controller reference and for one that a Deployment
  controls.
\<close>

theorem unowned_event_enqueues_nothing_witness:
  "GetControllerOf unownedObject = None
   \<and> GetControllerOf foreignObject = Some (demoOwner\<lparr>refKind := ''Deployment''\<rparr>)
   \<and> refKind (demoOwner\<lparr>refKind := ''Deployment''\<rparr>)
        \<noteq> ClickHouseInstallationCRDResourceKind demoDeps
   \<and> queue (handleObject demoDeps (MetaObject unownedObject) idleWorld) = queue idleWorld
   \<and> queue (handleObject demoDeps (MetaObject foreignObject) idleWorld) = queue idleWorld
   \<and> queue (handleObject demoDeps (DeletedFinalStateUnknown ''ns1/ss-other''
               (MetaObject foreignObject)) idleWorld) = queue idleWorld"
proof -
  have h1: "GetControllerOf unownedObject = None"
    by (simp add: GetControllerOf_def unownedObject_def demoObject_def demoOwner_def)
  have h2: "GetControllerOf foreignObject = Some (demoOwner\<lparr>refKind := ''Deployment''\<rparr>)"
    by (simp add: GetControllerOf_def foreignObject_def demoObject_def demoOwner_def)
  have h3: "refKind (demoOwner\<lparr>refKind := ''Deployment''\<rparr>)
        \<noteq> ClickHouseInstallationCRDResourceKind demoDeps"
    by (simp add: demoDeps_def)
  have a: "GetControllerOf unownedObject = None
      \<or> (\<exists>r. GetControllerOf unownedObject = Some r
               \<and> refKind r \<noteq> ClickHouseInstallationCRDResourceKind demoDeps)"
    using h1 by simp
  have b: "GetControllerOf foreignObject = None
      \<or> (\<exists>r. GetControllerOf foreignObject = Some r
               \<and> refKind r \<noteq> ClickHouseInstallationCRDResourceKind demoDeps)"
    using h2 h3 by simp
  show ?thesis
    using h1 h2 h3 unowned_event_enqueues_nothing [OF a, where s = idleWorld]
      unowned_event_enqueues_nothing [OF b, where s = idleWorld and tsKey = "''ns1/ss-other''"]
    by simp
qed

subsection \<open>C9: tombstones\<close>




subsection \<open>C10: the identity list of the verification phase\<close>

text \<open>
  C10: in the verification phase the loop over the recorded prefixes yields the list
  \<open>identities\<close>: one entry per prefix, in order, the pod hostname where the StatefulSet
  lookup succeeds and the empty string where it fails. That list has as many entries
  as \<open>status.objectPrefixes\<close>, it is the list \<open>ControlledValuesExist\<close> is asked about, and
  it is the list \<open>UpdateControlledState\<close> receives when the answer is no.
\<close>

theorem identity_list_keeps_positions:
  assumes key: "SplitMetaNamespaceKey d key = Inr (namespace, name)"
      and found: "chopLister s (namespace, name) = Inr c"
      and status: "ObjectPrefixes (chiStatus c) \<noteq> []"
  shows "fst (checkPrefixes d c 0 (ObjectPrefixes (chiStatus c))
                (replicate (length (ObjectPrefixes (chiStatus c))) [], s))
           = identities d c s
         \<and> length (identities d c s) = length (ObjectPrefixes (chiStatus c))
         \<and> metricsExporter (snd (syncItem d key s))
             = (if ControlledValuesExist d (metricsExporter s) (chiName c) (identities d c s)
                then metricsExporter s
                else metricsExporter s @ [(chiName c, identities d c s)])"
  using syncItem_verify [OF key found status]
  by (simp add: checkPrefixes_all) (simp add: identities_def)

text \<open>
  C10 in \<open>staleWorld\<close>: the StatefulSet of \<open>demo-0\<close> is missing, and the exporter
  receives the empty string followed by the hostname of \<open>demo-1\<close>.
\<close>

theorem identity_list_keeps_positions_witness:
  "SplitMetaNamespaceKey demoDeps ''ns1/demo'' = Inr (''ns1'', ''demo'')
   \<and> chopLister staleWorld (''ns1'', ''demo'') = Inr demoSynced
   \<and> ObjectPrefixes (chiStatus demoSynced) \<noteq> []
   \<and> identities demoDeps demoSynced staleWorld = [[], ''demo-1.ns1'']
   \<and> \<not> ControlledValuesExist demoDeps (metricsExporter staleWorld) (chiName demoSynced)
          [[], ''demo-1.ns1'']
   \<and> metricsExporter (snd (syncItem demoDeps ''ns1/demo'' staleWorld))
       = [(''demo'', [[], ''demo-1.ns1''])]"
proof -
  have h1: "SplitMetaNamespaceKey demoDeps ''ns1/demo'' = Inr (''ns1'', ''demo'')"
    by (simp add: demoDeps_def)
  have h2: "chopLister staleWorld (''ns1'', ''demo'') = Inr demoSynced"
    by (simp add: staleWorld_def driftedWorld_def demoWorld_def)
  have h3: "ObjectPrefixes (chiStatus demoSynced) \<noteq> []"
    by (simp add: demoSynced_def)
  have i: "identities demoDeps demoSynced staleWorld = [[], ''demo-1.ns1'']"
    by (simp add: staleWorld_def demo_defs aux_defs)
  have e: "\<not> ControlledValuesExist demoDeps (metricsExporter staleWorld) (chiName demoSynced)
      [[], ''demo-1.ns1'']"
    by (simp add: staleWorld_def demo_defs)
  have g: "metricsExporter staleWorld = []" "chiName demoSynced = ''demo''"
    by (simp_all add: staleWorld_def demo_defs)
  note t = identity_list_keeps_positions [OF h1 h2 h3, unfolded i]
  show ?thesis using h1 h2 h3 i e t by (simp add: g)
qed

end
